theory Spec2Isabelle
  imports Main "HOL-Library.Sublist"
begin

section \<open>JavaScript values used by the agent loop\<close>

text \<open>
  Strings are lists of code units below 256. A string is truthy exactly when it is not the
  empty string; \<open>null\<close> and \<open>undefined\<close> are \<open>None\<close> and are falsy.
\<close>

definition truthy :: "string \<Rightarrow> bool" where
  "truthy s \<longleftrightarrow> s \<noteq> []"

definition truthy_opt :: "string option \<Rightarrow> bool" where
  "truthy_opt v = (case v of None \<Rightarrow> False | Some s \<Rightarrow> truthy s)"

text \<open>\<open>Array.prototype.join\<close> on an array of strings.\<close>

fun join :: "string \<Rightarrow> string list \<Rightarrow> string" where
  "join sep [] = []"
| "join sep [x] = x"
| "join sep (x # y # ys) = x @ sep @ join sep (y # ys)"

text \<open>
  \<open>String.prototype.trim\<close> strips white space and line terminators at both ends. Among
  the code units below 256 these are TAB, LF, VT, FF, CR, SPACE and NBSP.
\<close>

definition is_js_space :: "char \<Rightarrow> bool" where
  "is_js_space c \<longleftrightarrow>
     c = CHR 0x09 \<or> c = CHR 0x0A \<or> c = CHR 0x0B \<or> c = CHR 0x0C \<or> c = CHR 0x0D \<or>
     c = CHR 0x20 \<or> c = CHR 0xA0"

definition trim :: "string \<Rightarrow> string" where
  "trim s = rev (dropWhile is_js_space (rev (dropWhile is_js_space s)))"

text \<open>Decimal rendering of a length inside a template literal.\<close>

definition digit_char :: "nat \<Rightarrow> char" where
  "digit_char d =
     (if d = 0 then CHR ''0'' else if d = 1 then CHR ''1'' else if d = 2 then CHR ''2''
      else if d = 3 then CHR ''3'' else if d = 4 then CHR ''4'' else if d = 5 then CHR ''5''
      else if d = 6 then CHR ''6'' else if d = 7 then CHR ''7'' else if d = 8 then CHR ''8''
      else CHR ''9'')"

fun string_of_nat :: "nat \<Rightarrow> string" where
  "string_of_nat n =
     (if n < 10 then [digit_char n]
      else string_of_nat (n div 10) @ [digit_char (n mod 10)])"

declare string_of_nat.simps [simp del]

section \<open>The execution backend and \<open>executeCode\<close> (lib/sandbox)\<close>

text \<open>
  What \<open>sandbox.runCode\<close> resolves with: the two log arrays, the \<open>png\<close> property of each
  result (\<open>None\<close> when undefined) and, when the cell raised, the \<open>value\<close> of
  \<open>execution.error\<close>.
\<close>

record execution =
  logs_stdout :: "string list"
  logs_stderr :: "string list"
  results :: "string option list"
  error_value :: "string option"

text \<open>
  A rejected call throws an error object; only its \<open>message\<close> property is read
  (\<open>None\<close> when the object has none).
\<close>

type_synonym thrown = "string option"

text \<open>The object \<open>executeCode\<close> returns: \<open>{ text, images, error }\<close>.\<close>

record outcome =
  res_text :: string
  res_images :: "string list"
  res_error :: "string option"

text \<open>
  The remote sandbox is stateful, so \<open>runCode\<close> takes and returns the sandbox state. It
  either rejects (timeout, transport or harness fault) or resolves with an execution.
\<close>

type_synonym 'sb runCode = "'sb \<Rightarrow> string \<Rightarrow> (thrown + execution) \<times> 'sb"

definition collect_images :: "string option list \<Rightarrow> string list" where
  "collect_images rs = concat (map (\<lambda>r. case r of None \<Rightarrow> [] | Some p \<Rightarrow> if truthy p then [p] else []) rs)"

definition executeCode :: "'sb runCode \<Rightarrow> 'sb \<Rightarrow> string \<Rightarrow> outcome \<times> 'sb" where
  "executeCode runCode sandbox code =
     (case runCode sandbox code of
        (Inr execution, sandbox') \<Rightarrow>
          (let text = join ''\<newline>'' (logs_stdout execution) @ join ''\<newline>'' (logs_stderr execution);
               images = collect_images (results execution);
               error = error_value execution
           in (\<lparr>res_text = trim text, res_images = images, res_error = error\<rparr>, sandbox'))
      | (Inl e, sandbox') \<Rightarrow>
          (\<lparr>res_text = [], res_images = [],
            res_error = Some (case e of
                              None \<Rightarrow> ''Execution failed''
                            | Some m \<Rightarrow> if truthy m then m else ''Execution failed'')\<rparr>, sandbox'))"

section \<open>Streaming the result of one tool invocation (api/chat/route)\<close>

text \<open>The JSON payload of one frame \<open>data: {type, content}\<close> handed to the controller.\<close>

datatype event =
  TextEv string | CodeEv string | OutputEv string | ErrorEv string | ImageEv string | DoneEv

text \<open>The frames enqueued for an outcome, in the order of the three statements.\<close>

definition stream_result :: "outcome \<Rightarrow> event list" where
  "stream_result result =
     (if truthy (res_text result) then [OutputEv (res_text result)] else []) @
     (case res_error result of
        None \<Rightarrow> []
      | Some e \<Rightarrow> if truthy e then [ErrorEv e] else []) @
     map ImageEv (res_images result)"

text \<open>What is pushed to \<open>allStreamedBlocks\<close> for the same outcome.\<close>

definition record_result :: "outcome \<Rightarrow> event list" where
  "record_result result =
     (if truthy (res_text result) then [OutputEv (res_text result)] else []) @
     (case res_error result of
        None \<Rightarrow> []
      | Some e \<Rightarrow> if truthy e then [ErrorEv e] else []) @
     map (\<lambda>img. ImageEv ''[base64]'') (res_images result)"

definition output_block :: "outcome \<Rightarrow> string" where
  "output_block result = ''Output:\<newline>'' @ res_text result"

definition error_block :: "string \<Rightarrow> string" where
  "error_block e = ''Error:\<newline>'' @ e"

definition plots_notice :: "nat \<Rightarrow> string" where
  "plots_notice n = ''['' @ string_of_nat n @ '' plot(s) generated and displayed]''"

definition toolResultContent :: "outcome \<Rightarrow> string" where
  "toolResultContent result =
     join ''\<newline>\<newline>''
       (filter truthy
         [if truthy (res_text result) then output_block result else [],
          case res_error result of
            None \<Rightarrow> []
          | Some e \<Rightarrow> if truthy e then error_block e else [],
          if length (res_images result) > 0 then plots_notice (length (res_images result)) else []])"

text \<open>The \<open>content\<close> of the tool result: \<open>toolResultContent || "Code executed successfully."\<close>.\<close>

definition tool_result_text :: "outcome \<Rightarrow> string" where
  "tool_result_text result =
     (if truthy (toolResultContent result) then toolResultContent result
      else ''Code executed successfully.'')"

section \<open>The agentic loop (api/chat/route, \<open>start\<close>)\<close>

datatype role = User | Assistant

text \<open>
  A content block of a message: the two kinds the loop distinguishes, the tool result it
  builds, and any other kind the provider may return.
\<close>

datatype block =
  TextBlock string
| ToolUseBlock string string
| ToolResultBlock string string
| OtherBlock

text \<open>
  The \<open>content\<close> property of a message object is a string, an array of its own, or a
  reference to an array that lives in the store: the assistant message built by the loop
  holds the very array \<open>assistantContent\<close> that the loop keeps pushing to.
\<close>

datatype content = Str string | Arr "block list" | Ref nat

datatype message = Message role content

text \<open>
  The provider call \<open>anthropic.messages.create\<close> for a fixed system prompt and tool: it
  sees the messages as they are at the time of the call and either rejects with an error
  object, kept as its \<open>message\<close>, or resolves with the content blocks of the response.
\<close>

type_synonym llm = "message list \<Rightarrow> string + block list"

record 'sb loop_state =
  currentMessages :: "message list"
  heap :: "nat \<Rightarrow> block list"
  next_ref :: nat
  frames :: "event list"
  closed :: bool
  allStreamedBlocks :: "event list"
  sandbox :: 'sb
  calls :: "message list list"
  iterations :: nat

text \<open>
  \<open>frames\<close> and \<open>closed\<close> are the controller of the stream: \<open>controller.enqueue\<close>
  appends a frame and \<open>controller.close\<close> sets the flag, and both succeed. \<open>heap\<close> holds
  the arrays \<open>assistantContent\<close> by address and \<open>next_ref\<close> is the next free address.
  \<open>calls\<close> logs the argument of every provider call and \<open>iterations\<close> counts the entries
  into the loop body; the code has no such variables.
\<close>

definition resolve :: "(nat \<Rightarrow> block list) \<Rightarrow> message \<Rightarrow> message" where
  "resolve h m =
     (case m of
        Message r (Ref a) \<Rightarrow> Message r (Arr (h a))
      | _ \<Rightarrow> m)"

definition history :: "'sb loop_state \<Rightarrow> message list" where
  "history s = map (resolve (heap s)) (currentMessages s)"

text \<open>
  The body of \<open>for (const block of response.content)\<close>; \<open>a\<close> is the address of this
  iteration's \<open>assistantContent\<close>.
\<close>

definition process_block ::
  "'sb runCode \<Rightarrow> nat \<Rightarrow> block \<Rightarrow> bool \<times> 'sb loop_state \<Rightarrow> bool \<times> 'sb loop_state" where
  "process_block runCode a blk st =
     (let hasToolUse = fst st;
          s = (snd st)\<lparr>heap := (heap (snd st))(a := heap (snd st) a @ [blk])\<rparr>
      in case blk of
           TextBlock t \<Rightarrow>
             (hasToolUse,
              s\<lparr>allStreamedBlocks := allStreamedBlocks s @ [TextEv t],
                frames := frames s @ [TextEv t]\<rparr>)
         | ToolUseBlock tid code \<Rightarrow>
             (let r = executeCode runCode (sandbox s) code;
                  result = fst r
              in (True,
                  s\<lparr>allStreamedBlocks :=
                      allStreamedBlocks s @ [CodeEv code] @ record_result result,
                    frames := frames s @ [CodeEv code] @ stream_result result,
                    sandbox := snd r,
                    currentMessages :=
                      currentMessages s @
                      [Message Assistant (Ref a),
                       Message User (Arr [ToolResultBlock tid (tool_result_text result)])]\<rparr>))
         | _ \<Rightarrow> (hasToolUse, s))"

datatype step = Continue | Break | Threw string

text \<open>One pass through the body of the \<open>while\<close> loop.\<close>

definition iteration :: "llm \<Rightarrow> 'sb runCode \<Rightarrow> 'sb loop_state \<Rightarrow> step \<times> 'sb loop_state" where
  "iteration create runCode s0 =
     (let s1 = s0\<lparr>calls := calls s0 @ [history s0]\<rparr>
      in case create (history s0) of
           Inl msg \<Rightarrow> (Threw msg, s1)
         | Inr response_content \<Rightarrow>
             (let a = next_ref s1;
                  s2 = s1\<lparr>heap := (heap s1)(a := []), next_ref := Suc a\<rparr>;
                  st = fold (process_block runCode a) response_content (False, s2)
              in (if fst st then Continue else Break, snd st)))"

datatype exit = NoToolUse | CapReached | Aborted string

text \<open>\<open>while (maxIterations-- > 0)\<close>: the first argument is the remaining budget.\<close>

fun agentic_loop ::
  "llm \<Rightarrow> 'sb runCode \<Rightarrow> nat \<Rightarrow> 'sb loop_state \<Rightarrow> exit \<times> 'sb loop_state" where
  "agentic_loop create runCode 0 s = (CapReached, s)"
| "agentic_loop create runCode (Suc n) s =
     (case iteration create runCode (s\<lparr>iterations := Suc (iterations s)\<rparr>) of
        (Threw msg, s') \<Rightarrow> (Aborted msg, s')
      | (Break, s') \<Rightarrow> (NoToolUse, s')
      | (Continue, s') \<Rightarrow> agentic_loop create runCode n s')"

definition maxIterations :: nat where
  "maxIterations = 10"

definition initial_state :: "message list \<Rightarrow> 'sb \<Rightarrow> 'sb loop_state" where
  "initial_state messages sb =
     \<lparr>currentMessages = messages, heap = (\<lambda>a. []), next_ref = 0, frames = [],
      closed = False, allStreamedBlocks = [], sandbox = sb, calls = [], iterations = 0\<rparr>"

definition run_loop :: "llm \<Rightarrow> 'sb runCode \<Rightarrow> message list \<Rightarrow> 'sb \<Rightarrow> exit \<times> 'sb loop_state" where
  "run_loop create runCode messages sb =
     agentic_loop create runCode maxIterations (initial_state messages sb)"

text \<open>
  The \<open>start\<close> callback of the stream: the \<open>try\<close> block enqueues \<open>done\<close> and closes, the
  \<open>catch\<close> block enqueues the error and closes. The persistence call between the loop and
  \<open>done\<close> never throws and does not touch the stream.
\<close>

definition start :: "llm \<Rightarrow> 'sb runCode \<Rightarrow> message list \<Rightarrow> 'sb \<Rightarrow> 'sb loop_state" where
  "start create runCode messages sb =
     (case run_loop create runCode messages sb of
        (Aborted msg, s) \<Rightarrow> s\<lparr>frames := frames s @ [ErrorEv msg], closed := True\<rparr>
      | (_, s) \<Rightarrow> s\<lparr>frames := frames s @ [DoneEv], closed := True\<rparr>)"

section \<open>The request handler \<open>POST\<close>\<close>

datatype mode = Vanilla | Spinel

record uploaded_file =
  file_name :: string
  file_content :: string

record body =
  messages :: "message list"
  mode :: mode
  sessionId :: string
  files :: "uploaded_file list option"

text \<open>
  \<open>sandbox.files.write\<close>: rejects with a message or resolves, changing the sandbox. The
  content is passed on as it arrives; decoding base64 text to bytes does not throw.
\<close>

type_synonym 'sb files_write = "'sb \<Rightarrow> string \<Rightarrow> string \<Rightarrow> string + 'sb"

definition uploadFileToSandbox ::
  "'sb files_write \<Rightarrow> 'sb \<Rightarrow> string \<Rightarrow> string \<Rightarrow> string + (string \<times> 'sb)" where
  "uploadFileToSandbox write sb filename bytes =
     (let path = ''/home/user/'' @ filename
      in case write sb path bytes of
           Inl msg \<Rightarrow> Inl msg
         | Inr sb' \<Rightarrow> Inr (path, sb'))"

fun upload_all :: "'sb files_write \<Rightarrow> 'sb \<Rightarrow> uploaded_file list \<Rightarrow> string + 'sb" where
  "upload_all write sb [] = Inr sb"
| "upload_all write sb (f # fs) =
     (case uploadFileToSandbox write sb (file_name f) (file_content f) of
        Inl msg \<Rightarrow> Inl msg
      | Inr r \<Rightarrow> upload_all write (snd r) fs)"

datatype 'sb response = Http500 string | EventStream "'sb loop_state"

text \<open>
  \<open>parsed\<close> is the settlement of \<open>request.json()\<close>, \<open>acquire\<close> that of
  \<open>getOrCreateSandbox\<close>, \<open>prompt\<close> the system prompt of a mode; each \<open>Inl\<close> is the message
  of the error thrown. The fire-and-forget persistence calls never throw.
\<close>

definition inject_files :: "'sb files_write \<Rightarrow> 'sb \<Rightarrow> uploaded_file list option \<Rightarrow> string + 'sb" where
  "inject_files write sb fls =
     (case fls of
        None \<Rightarrow> Inr sb
      | Some fs \<Rightarrow> if length fs > 0 then upload_all write sb fs else Inr sb)"

definition POST ::
  "string + body \<Rightarrow> (string \<Rightarrow> mode \<Rightarrow> string + 'sb) \<Rightarrow> 'sb files_write \<Rightarrow>
   (mode \<Rightarrow> string) \<Rightarrow> (string \<Rightarrow> llm) \<Rightarrow> 'sb runCode \<Rightarrow> 'sb response" where
  "POST parsed acquire write prompt create runCode =
     (case parsed of
        Inl msg \<Rightarrow> Http500 msg
      | Inr b \<Rightarrow>
          (case acquire (sessionId b) (mode b) of
             Inl msg \<Rightarrow> Http500 msg
           | Inr sb \<Rightarrow>
               (case inject_files write sb (files b) of
                  Inl msg \<Rightarrow> Http500 msg
                | Inr sb' \<Rightarrow>
                    EventStream (start (create (prompt (mode b))) runCode (messages b) sb'))))"

text \<open>The frames a response delivers: none unless a stream was opened.\<close>

definition delivered :: "'sb response \<Rightarrow> event list" where
  "delivered r = (case r of Http500 msg \<Rightarrow> [] | EventStream s \<Rightarrow> frames s)"

section \<open>The sandbox pool (lib/sandbox, \<open>getOrCreateSandbox\<close>)\<close>

record env =
  E2B_SPINEL_TEMPLATE :: "string option"
  E2B_VANILLA_TEMPLATE :: "string option"
  MP_API_KEY :: "string option"

text \<open>\<open>process.env.X || undefined\<close>.\<close>

definition or_undefined :: "string option \<Rightarrow> string option" where
  "or_undefined v = (if truthy_opt v then v else None)"

definition SPINEL_TEMPLATE :: "env \<Rightarrow> string option" where
  "SPINEL_TEMPLATE e = or_undefined (E2B_SPINEL_TEMPLATE e)"

definition VANILLA_TEMPLATE :: "env \<Rightarrow> string option" where
  "VANILLA_TEMPLATE e = or_undefined (E2B_VANILLA_TEMPLATE e)"

definition mode_name :: "mode \<Rightarrow> string" where
  "mode_name m = (case m of Vanilla \<Rightarrow> ''vanilla'' | Spinel \<Rightarrow> ''spinel'')"

definition sandbox_key :: "string \<Rightarrow> mode \<Rightarrow> string" where
  "sandbox_key sid m = sid @ ''-'' @ mode_name m"

text \<open>
  The module-level map \<open>activeSandboxes\<close>, and the number of sandboxes the backend has
  handed out so far; a new sandbox is identified by that number.
\<close>

record pool =
  activeSandboxes :: "string \<Rightarrow> nat option"
  created :: nat

text \<open>
  \<open>getOrCreateSandbox\<close> is an async function: it runs from one \<open>await\<close> to the next without
  interruption, and other calls may run while it is suspended. A call is at its entry,
  suspended at one of its awaits (\<open>Sandbox.create\<close>, \<open>buildInstallScript\<close>, the install
  \<open>runCode\<close>, the \<open>MP_API_KEY\<close> \<open>runCode\<close>), or settled.
\<close>

datatype pc =
  Entry | AwaitCreate | AwaitScript nat | AwaitInstall nat | AwaitSecret nat
| Returned nat | Rejected string

record call =
  call_session :: string
  call_mode :: mode
  call_pc :: pc

definition register :: "string \<Rightarrow> nat \<Rightarrow> pool \<Rightarrow> pc \<times> pool" where
  "register key sb p = (Returned sb, p\<lparr>activeSandboxes := (activeSandboxes p)(key \<mapsto> sb)\<rparr>)"

definition secret_step :: "env \<Rightarrow> mode \<Rightarrow> string \<Rightarrow> nat \<Rightarrow> pool \<Rightarrow> pc \<times> pool" where
  "secret_step e m key sb p =
     (if m = Spinel \<and> truthy_opt (MP_API_KEY e) then (AwaitSecret sb, p)
      else register key sb p)"

definition install_step :: "env \<Rightarrow> mode \<Rightarrow> string \<Rightarrow> nat \<Rightarrow> pool \<Rightarrow> pc \<times> pool" where
  "install_step e m key sb p =
     (let template = (if m = Spinel then SPINEL_TEMPLATE e else VANILLA_TEMPLATE e)
      in if \<not> truthy_opt template \<and> m = Spinel then (AwaitScript sb, p)
         else secret_step e m key sb p)"

text \<open>
  Resuming a call runs it to its next await. \<open>settled\<close> is how the awaited backend promise
  settled: \<open>None\<close> fulfilled, \<open>Some msg\<close> rejected with that message. It is not read at the
  entry, and \<open>buildInstallScript\<close> falls back to a fixed package list and never rejects.
\<close>

definition resume :: "env \<Rightarrow> string option \<Rightarrow> call \<times> pool \<Rightarrow> call \<times> pool" where
  "resume e settled cp =
     (let c = fst cp; p = snd cp; m = call_mode c;
          key = sandbox_key (call_session c) m;
          r = (case call_pc c of
                 Entry \<Rightarrow>
                   (case activeSandboxes p key of
                      Some sb \<Rightarrow> (Returned sb, p)
                    | None \<Rightarrow> (AwaitCreate, p))
               | AwaitCreate \<Rightarrow>
                   (case settled of
                      Some msg \<Rightarrow> (Rejected msg, p)
                    | None \<Rightarrow> install_step e m key (created p) (p\<lparr>created := Suc (created p)\<rparr>))
               | AwaitScript sb \<Rightarrow> (AwaitInstall sb, p)
               | AwaitInstall sb \<Rightarrow>
                   (case settled of
                      Some msg \<Rightarrow> (Rejected msg, p)
                    | None \<Rightarrow> secret_step e m key sb p)
               | AwaitSecret sb \<Rightarrow>
                   (case settled of
                      Some msg \<Rightarrow> (Rejected msg, p)
                    | None \<Rightarrow> register key sb p)
               | Returned sb \<Rightarrow> (Returned sb, p)
               | Rejected msg \<Rightarrow> (Rejected msg, p))
      in (c\<lparr>call_pc := fst r\<rparr>, snd r))"

definition new_call :: "string \<Rightarrow> mode \<Rightarrow> call" where
  "new_call sid m = \<lparr>call_session = sid, call_mode = m, call_pc = Entry\<rparr>"

text \<open>
  A call that runs alone, every awaited promise fulfilled: the entry and at most four
  awaits.
\<close>

definition getOrCreateSandbox :: "env \<Rightarrow> string \<Rightarrow> mode \<Rightarrow> pool \<Rightarrow> call \<times> pool" where
  "getOrCreateSandbox e sid m p =
     fold (resume e) [None, None, None, None, None] (new_call sid m, p)"

text \<open>
  Several calls in flight: each entry of the schedule names the call that is resumed next
  and how its awaited promise settled.
\<close>

fun run_schedule ::
  "env \<Rightarrow> (nat \<times> string option) list \<Rightarrow> call list \<times> pool \<Rightarrow> call list \<times> pool" where
  "run_schedule e [] sys = sys"
| "run_schedule e ((i, settled) # rest) (cs, p) =
     (if i < length cs
      then (let r = resume e settled (cs ! i, p)
            in run_schedule e rest (cs[i := fst r], snd r))
      else run_schedule e rest (cs, p))"

section \<open>Properties named by the specification\<close>

text \<open>The number of non-empty fields of an outcome, as the specification counts them.\<close>

definition spec_nonempty_fields :: "outcome \<Rightarrow> nat" where
  "spec_nonempty_fields r =
     (if res_text r \<noteq> [] then 1 else 0) +
     (if res_error r \<noteq> None then 1 else 0) +
     (if res_images r \<noteq> [] then 1 else 0)"

text \<open>
  The backend reports output in chunks, each on standard output or standard error; the
  client library appends every chunk to the array of its stream.
\<close>

datatype stream = Stdout | Stderr

definition execution_of :: "(stream \<times> string) list \<Rightarrow> execution" where
  "execution_of emitted =
     \<lparr>logs_stdout = map snd (filter (\<lambda>c. fst c = Stdout) emitted),
      logs_stderr = map snd (filter (\<lambda>c. fst c = Stderr) emitted),
      results = [], error_value = None\<rparr>"

text \<open>The captured text as the specification words it: the chunks in emission order.\<close>

definition spec_merged_text :: "(stream \<times> string) list \<Rightarrow> string" where
  "spec_merged_text emitted = trim (join ''\<newline>'' (map snd emitted))"

text \<open>
  The specification's pairing invariant on a conversation history: every tool invocation
  in a message is followed, later in the history, by exactly one tool result that carries
  its identifier.
\<close>

definition blocks_of :: "message \<Rightarrow> block list" where
  "blocks_of m = (case m of Message r (Arr bs) \<Rightarrow> bs | _ \<Rightarrow> [])"

definition tool_use_ids :: "block list \<Rightarrow> string list" where
  "tool_use_ids bs = concat (map (\<lambda>b. case b of ToolUseBlock tid code \<Rightarrow> [tid] | _ \<Rightarrow> []) bs)"

definition tool_result_ids :: "block list \<Rightarrow> string list" where
  "tool_result_ids bs = concat (map (\<lambda>b. case b of ToolResultBlock tid txt \<Rightarrow> [tid] | _ \<Rightarrow> []) bs)"

definition result_count :: "string \<Rightarrow> message list \<Rightarrow> nat" where
  "result_count tid ms = count_list (tool_result_ids (concat (map blocks_of ms))) tid"

fun paired :: "message list \<Rightarrow> bool" where
  "paired [] = True"
| "paired (m # ms) =
     (list_all (\<lambda>tid. result_count tid ms = 1) (tool_use_ids (blocks_of m)) \<and> paired ms)"

text \<open>Every provider call in a log was answered with a response, none was rejected.\<close>

definition resolved_calls :: "llm \<Rightarrow> message list list \<Rightarrow> bool" where
  "resolved_calls create hs = list_all (\<lambda>h. \<not> isl (create h)) hs"

text \<open>
  The settled call and the pool after a call that found no entry for its key and whose
  awaits were all fulfilled.
\<close>

definition registered :: "string \<Rightarrow> mode \<Rightarrow> pool \<Rightarrow> call \<times> pool" where
  "registered sid m p =
     ((new_call sid m)\<lparr>call_pc := Returned (created p)\<rparr>,
      p\<lparr>created := Suc (created p),
        activeSandboxes := (activeSandboxes p)(sandbox_key sid m \<mapsto> created p)\<rparr>)"

section \<open>Sample requests, providers and backends\<close>

definition question :: "message list" where
  "question = [Message User (Str ''compute 2+2'')]"

text \<open>A cell that prints nothing and returns nothing.\<close>

definition silent_run :: "unit runCode" where
  "silent_run sb code =
     (Inr \<lparr>logs_stdout = [], logs_stderr = [], results = [], error_value = None\<rparr>, sb)"

text \<open>\<open>print(2+2)\<close>.\<close>

definition print_four_run :: "unit runCode" where
  "print_four_run sb code =
     (Inr \<lparr>logs_stdout = [''4''], logs_stderr = [], results = [], error_value = None\<rparr>, sb)"

text \<open>
  A cell that raises an exception without a message, such as \<open>assert False\<close>: the
  execution carries an error whose \<open>value\<close> is the empty string.
\<close>

definition empty_message_run :: "unit runCode" where
  "empty_message_run sb code =
     (Inr \<lparr>logs_stdout = [], logs_stderr = [], results = [], error_value = Some []\<rparr>, sb)"

text \<open>A cell that prints, draws two plots and then raises.\<close>

definition busy_run :: "unit runCode" where
  "busy_run sb code =
     (Inr \<lparr>logs_stdout = [''a''], logs_stderr = [], results = [Some ''p'', Some ''q''],
           error_value = Some ''e''\<rparr>, sb)"

text \<open>A cell that writes to standard error first and to standard output afterwards.\<close>

definition stderr_first_run :: "unit runCode" where
  "stderr_first_run sb code = (Inr (execution_of [(Stderr, ''e''), (Stdout, ''o'')]), sb)"

text \<open>A call that is rejected with an error object that has no message.\<close>

definition timed_out_run :: "unit runCode" where
  "timed_out_run sb code = (Inl None, sb)"

text \<open>One tool invocation, then a final text.\<close>

definition tool_then_text :: "string \<Rightarrow> llm" where
  "tool_then_text code h =
     (if length h = 1 then Inr [ToolUseBlock ''t1'' code]
      else Inr [TextBlock ''The answer is 4.''])"

text \<open>A provider that asks for a tool in every response.\<close>

definition always_tool :: llm where
  "always_tool h = Inr [ToolUseBlock ''t'' ''x'']"

text \<open>One tool invocation, then the provider call fails.\<close>

definition tool_then_reject :: llm where
  "tool_then_reject h =
     (if length h = 1 then Inr [ToolUseBlock ''t1'' ''x''] else Inl ''overloaded'')"

text \<open>A response that holds two tool invocations.\<close>

definition two_tools :: "block list" where
  "two_tools = [ToolUseBlock ''a'' ''x'', ToolUseBlock ''b'' ''y'']"

definition no_env :: env where
  "no_env = \<lparr>E2B_SPINEL_TEMPLATE = None, E2B_VANILLA_TEMPLATE = None, MP_API_KEY = None\<rparr>"

definition empty_pool :: pool where
  "empty_pool = \<lparr>activeSandboxes = (\<lambda>k. None), created = 0\<rparr>"

definition sample_body :: body where
  "sample_body = \<lparr>messages = question, mode = Vanilla, sessionId = ''s1'', files = None\<rparr>"

section \<open>Evaluating the sample runs\<close>

lemmas run_defs =
  start_def run_loop_def maxIterations_def initial_state_def iteration_def process_block_def
  executeCode_def history_def resolve_def stream_result_def record_result_def
  tool_result_text_def toolResultContent_def truthy_def collect_images_def trim_def
  is_js_space_def output_block_def error_block_def plots_notice_def

lemmas pool_defs =
  resume_def install_step_def secret_step_def register_def new_call_def
  SPINEL_TEMPLATE_def VANILLA_TEMPLATE_def or_undefined_def truthy_opt_def truthy_def

section \<open>The result of one tool invocation on the wire\<close>

lemma stream_result_no_done: "DoneEv \<notin> set (stream_result r)"
  by (auto simp: stream_result_def split: option.splits)

text \<open>
  C2, as stated: the number of \<open>output\<close>, \<open>error\<close> and \<open>image\<close> frames of a tool
  invocation equals the number of non-empty fields of its outcome and lies between 0 and 3.
  A cell that prints, raises and draws two plots yields four such frames for an outcome
  with three non-empty fields.
\<close>

theorem result_frames_exceed_fields:
  "frames (snd (process_block busy_run 0 (ToolUseBlock ''t'' ''x'') (False, initial_state question ()))) =
     [CodeEv ''x'', OutputEv ''a'', ErrorEv ''e'', ImageEv ''p'', ImageEv ''q''] \<and>
   length (stream_result (fst (executeCode busy_run () ''x''))) = 4 \<and>
   spec_nonempty_fields (fst (executeCode busy_run () ''x'')) = 3 \<and>
   \<not> (length (stream_result (fst (executeCode busy_run () ''x''))) =
        spec_nonempty_fields (fst (executeCode busy_run () ''x'')) \<and>
      length (stream_result (fst (executeCode busy_run () ''x''))) \<le> 3)"
  by (simp add: run_defs busy_run_def spec_nonempty_fields_def)

text \<open>
  C2, amended: for a tool invocation whose outcome has no error or a non-empty error text,
  the loop enqueues, after the \<open>code\<close> frame, one \<open>output\<close> frame if the text is non-empty,
  one \<open>error\<close> frame if the error is present, and one \<open>image\<close> frame per image in the
  outcome's order, and nothing else. Their number is the number of non-empty text and error
  fields plus the number of images; it equals the number of non-empty fields, and is at
  most 3, when there is at most one image.
\<close>

theorem result_frames_per_field:
  assumes "res_error (fst (executeCode runCode (sandbox (snd st)) code)) \<noteq> Some []"
  shows "let r = fst (executeCode runCode (sandbox (snd st)) code);
             evs = (if res_text r \<noteq> [] then [OutputEv (res_text r)] else []) @
                   (case res_error r of None \<Rightarrow> [] | Some e \<Rightarrow> [ErrorEv e]) @
                   map ImageEv (res_images r)
         in frames (snd (process_block runCode a (ToolUseBlock tid code) st)) =
              frames (snd st) @ [CodeEv code] @ evs \<and>
            length evs =
              (if res_text r \<noteq> [] then 1 else 0) + (if res_error r \<noteq> None then 1 else 0) +
              length (res_images r) \<and>
            (length (res_images r) \<le> 1 \<longrightarrow>
               length evs = spec_nonempty_fields r \<and> length evs \<le> 3)"
proof -
  have len1: "\<And>xs :: string list. length xs \<le> Suc 0 \<Longrightarrow> xs \<noteq> [] \<Longrightarrow> length xs = Suc 0"
    by (case_tac xs) auto
  show ?thesis
    using assms
    by (auto simp: Let_def process_block_def stream_result_def truthy_def
          spec_nonempty_fields_def split: option.splits dest: len1)
qed

theorem result_frames_per_field_witness:
  "res_error (fst (executeCode print_four_run (sandbox (snd (False, initial_state question ()))) ''print(2+2)'')) \<noteq> Some [] \<and>
   frames (snd (process_block print_four_run 0 (ToolUseBlock ''t1'' ''print(2+2)'')
      (False, initial_state question ()))) = [CodeEv ''print(2+2)'', OutputEv ''4'']"
proof -
  have e: "fst (executeCode print_four_run (sandbox (snd (False, initial_state question ()))) ''print(2+2)'') =
           \<lparr>res_text = ''4'', res_images = [], res_error = None\<rparr>"
    by (simp add: executeCode_def print_four_run_def trim_def is_js_space_def collect_images_def)
  have h: "res_error (fst (executeCode print_four_run (sandbox (snd (False, initial_state question ()))) ''print(2+2)'')) \<noteq> Some []"
    by (simp only: e) simp
  have f: "frames (snd (False, initial_state question ())) = []"
    by (simp add: initial_state_def)
  have "let r = fst (executeCode print_four_run (sandbox (snd (False, initial_state question ()))) ''print(2+2)'');
            evs = (if res_text r \<noteq> [] then [OutputEv (res_text r)] else []) @
                  (case res_error r of None \<Rightarrow> [] | Some e \<Rightarrow> [ErrorEv e]) @
                  map ImageEv (res_images r)
        in frames (snd (process_block print_four_run 0 (ToolUseBlock ''t1'' ''print(2+2)'')
                     (False, initial_state question ()))) =
             frames (snd (False, initial_state question ())) @ [CodeEv ''print(2+2)''] @ evs \<and>
           length evs =
             (if res_text r \<noteq> [] then 1 else 0) + (if res_error r \<noteq> None then 1 else 0) +
             length (res_images r) \<and>
           (length (res_images r) \<le> 1 \<longrightarrow>
              length evs = spec_nonempty_fields r \<and> length evs \<le> 3)"
    using h by (rule result_frames_per_field)
  then have "frames (snd (process_block print_four_run 0 (ToolUseBlock ''t1'' ''print(2+2)'')
                     (False, initial_state question ()))) = [CodeEv ''print(2+2)'', OutputEv ''4'']"
    unfolding Let_def e f by simp
  with h show ?thesis by (rule conjI)
qed

section \<open>The summary fed back to the provider\<close>

lemma string_of_nat_nonempty: "string_of_nat n \<noteq> []"
  by (subst string_of_nat.simps) simp

lemma tool_result_text_nonempty: "tool_result_text r \<noteq> []"
  by (simp add: tool_result_text_def truthy_def)

lemma toolResultContent_blocks:
  assumes "res_error r \<noteq> Some []"
  shows "toolResultContent r =
           join ''\<newline>\<newline>''
             ((if res_text r \<noteq> [] then [output_block r] else []) @
              (case res_error r of None \<Rightarrow> [] | Some e \<Rightarrow> [error_block e]) @
              (if res_images r \<noteq> [] then [plots_notice (length (res_images r))] else []))"
  using assms
  by (auto simp: toolResultContent_def truthy_def output_block_def error_block_def
        plots_notice_def split: option.splits)

text \<open>
  C3: the summary holds an output block if the text is non-empty, an error block if the
  error is present, and a plot notice if there is an image. For a cell that raises an
  exception with an empty message the outcome carries the error \<open>""\<close>, which is present
  and not \<open>null\<close>; the summary has no error block and is the success sentence.
\<close>

theorem empty_error_summarised_as_success:
  "fst (executeCode empty_message_run () ''assert False'') =
     \<lparr>res_text = [], res_images = [], res_error = Some []\<rparr> \<and>
   toolResultContent (fst (executeCode empty_message_run () ''assert False'')) = [] \<and>
   tool_result_text (fst (executeCode empty_message_run () ''assert False'')) =
     ''Code executed successfully.''"
  by (simp add: run_defs empty_message_run_def)

section \<open>\<open>executeCode\<close>\<close>

text \<open>
  C5: when the remote call is rejected (a timeout or any other fault of the harness),
  \<open>executeCode\<close> returns an outcome with empty text, no images and an error description
  that is neither \<open>null\<close> nor empty; nothing is thrown to the caller.
\<close>

theorem executeCode_captures_faults:
  assumes "fst (runCode sb code) = Inl e"
  shows "res_text (fst (executeCode runCode sb code)) = [] \<and>
         res_images (fst (executeCode runCode sb code)) = [] \<and>
         res_error (fst (executeCode runCode sb code)) \<noteq> None \<and>
         res_error (fst (executeCode runCode sb code)) \<noteq> Some [] \<and>
         res_error (fst (executeCode runCode sb code)) =
           Some (case e of None \<Rightarrow> ''Execution failed''
                 | Some m \<Rightarrow> if m = [] then ''Execution failed'' else m)"
  using assms
  by (cases "runCode sb code") (auto simp: executeCode_def truthy_def split: option.splits)

theorem executeCode_captures_faults_witness:
  "fst (timed_out_run () ''while True: pass'') = Inl None \<and>
   fst (executeCode timed_out_run () ''while True: pass'') =
     \<lparr>res_text = [], res_images = [], res_error = Some ''Execution failed''\<rparr>"
proof -
  have h: "fst (timed_out_run () ''while True: pass'') = Inl None"
    by (simp add: timed_out_run_def)
  have "res_error (fst (executeCode timed_out_run () ''while True: pass'')) =
          Some (case None of None \<Rightarrow> ''Execution failed''
                | Some m \<Rightarrow> if m = [] then ''Execution failed'' else m) \<and>
        res_text (fst (executeCode timed_out_run () ''while True: pass'')) = [] \<and>
        res_images (fst (executeCode timed_out_run () ''while True: pass'')) = []"
    using executeCode_captures_faults [of timed_out_run "()" "''while True: pass''" None] h
    by simp
  then have "fst (executeCode timed_out_run () ''while True: pass'') =
     \<lparr>res_text = [], res_images = [], res_error = Some ''Execution failed''\<rparr>"
    by (cases "fst (executeCode timed_out_run () ''while True: pass'')") simp
  with h show ?thesis by (rule conjI)
qed

lemma trim_ends:
  "trim s = [] \<or> (\<not> is_js_space (hd (trim s)) \<and> \<not> is_js_space (last (trim s)))"
proof -
  define a where "a = dropWhile is_js_space s"
  define b where "b = dropWhile is_js_space (rev a)"
  have ha: "a = [] \<or> \<not> is_js_space (hd a)"
    unfolding a_def by (metis hd_dropWhile)
  have hb: "b = [] \<or> \<not> is_js_space (hd b)"
    unfolding b_def by (metis hd_dropWhile)
  have t: "trim s = rev b"
    by (simp add: trim_def a_def b_def)
  show ?thesis
  proof (cases "b = []")
    case True
    then show ?thesis by (simp add: t)
  next
    case False
    have ne: "a \<noteq> []"
      using False by (auto simp: b_def)
    have "takeWhile is_js_space (rev a) @ b = rev a"
      by (simp add: b_def)
    then have "last b = last (rev a)"
      using False by (metis last_appendR)
    then have "last b = hd a"
      using ne by (simp add: last_rev)
    then have "\<not> is_js_space (last b)"
      using ha ne by simp
    moreover have "\<not> is_js_space (hd b)"
      using hb False by simp
    ultimately show ?thesis
      using False by (simp add: t hd_rev last_rev)
  qed
qed

text \<open>
  C9, as stated: the captured text is standard output and standard error merged in their
  emission order. A cell that writes \<open>e\<close> to standard error and then \<open>o\<close> to standard
  output is captured as \<open>oe\<close>.
\<close>

theorem captured_text_not_in_emission_order:
  "res_text (fst (executeCode stderr_first_run () ''x'')) = ''oe'' \<and>
   spec_merged_text [(Stderr, ''e''), (Stdout, ''o'')] = ''e\<newline>o'' \<and>
   res_text (fst (executeCode stderr_first_run () ''x'')) \<noteq>
     spec_merged_text [(Stderr, ''e''), (Stdout, ''o'')]"
  by (simp add: executeCode_def stderr_first_run_def execution_of_def spec_merged_text_def
      trim_def is_js_space_def)

text \<open>
  C9, amended: for every successful remote execution the captured text is all chunks of
  standard output joined by line feeds, directly followed by all chunks of standard error
  joined by line feeds, with white space removed at both ends: it does not begin or end
  with white space, and it does not depend on how the two streams were interleaved.
\<close>

theorem captured_text_stdout_then_stderr:
  assumes "fst (runCode sb code) = Inr ex"
  shows "let t = res_text (fst (executeCode runCode sb code)) in
           t = trim (join ''\<newline>'' (logs_stdout ex) @ join ''\<newline>'' (logs_stderr ex)) \<and>
           (t = [] \<or> (\<not> is_js_space (hd t) \<and> \<not> is_js_space (last t)))"
proof -
  have "res_text (fst (executeCode runCode sb code)) =
          trim (join ''\<newline>'' (logs_stdout ex) @ join ''\<newline>'' (logs_stderr ex))"
    using assms by (cases "runCode sb code") (simp add: executeCode_def)
  then show ?thesis
    using trim_ends by (simp add: Let_def)
qed

theorem captured_text_stdout_then_stderr_witness:
  "fst (stderr_first_run () ''x'') = Inr (execution_of [(Stderr, ''e''), (Stdout, ''o'')]) \<and>
   res_text (fst (executeCode stderr_first_run () ''x'')) = ''oe''"
proof -
  have h: "fst (stderr_first_run () ''x'') = Inr (execution_of [(Stderr, ''e''), (Stdout, ''o'')])"
    by (simp add: stderr_first_run_def)
  have t: "trim (join ''\<newline>'' (logs_stdout (execution_of [(Stderr, ''e''), (Stdout, ''o'')])) @
                 join ''\<newline>'' (logs_stderr (execution_of [(Stderr, ''e''), (Stdout, ''o'')]))) = ''oe''"
    by (simp add: execution_of_def trim_def is_js_space_def)
  have "res_text (fst (executeCode stderr_first_run () ''x'')) = ''oe''"
    using captured_text_stdout_then_stderr
            [of stderr_first_run "()" "''x''" "execution_of [(Stderr, ''e''), (Stdout, ''o'')]"] h
    unfolding Let_def t by simp
  with h show ?thesis by (rule conjI)
qed


section \<open>Invariants of the agentic loop\<close>

lemma process_block_ghost:
  "calls (snd (process_block rc a b st)) = calls (snd st) \<and>
   iterations (snd (process_block rc a b st)) = iterations (snd st) \<and>
   closed (snd (process_block rc a b st)) = closed (snd st)"
  by (cases b) (simp_all add: process_block_def Let_def)

lemma process_block_no_done:
  "DoneEv \<notin> set (frames (snd st)) \<Longrightarrow>
   DoneEv \<notin> set (frames (snd (process_block rc a b st)))"
  by (cases b) (simp_all add: process_block_def Let_def stream_result_no_done)

lemma fold_process_block_ghost:
  "calls (snd (fold (process_block rc a) bs st)) = calls (snd st) \<and>
   iterations (snd (fold (process_block rc a) bs st)) = iterations (snd st) \<and>
   closed (snd (fold (process_block rc a) bs st)) = closed (snd st)"
  by (induction bs arbitrary: st) (simp_all add: process_block_ghost)

lemma fold_process_block_no_done:
  "DoneEv \<notin> set (frames (snd st)) \<Longrightarrow>
   DoneEv \<notin> set (frames (snd (fold (process_block rc a) bs st)))"
  by (induction bs arbitrary: st) (simp_all add: process_block_no_done)

lemma iteration_ghost:
  "calls (snd (iteration c rc s)) = calls s @ [history s] \<and>
   iterations (snd (iteration c rc s)) = iterations s \<and>
   closed (snd (iteration c rc s)) = closed s"
  by (simp add: iteration_def Let_def fold_process_block_ghost split: sum.splits)

lemma iteration_no_done:
  "DoneEv \<notin> set (frames s) \<Longrightarrow> DoneEv \<notin> set (frames (snd (iteration c rc s)))"
  by (simp add: iteration_def Let_def fold_process_block_no_done split: sum.splits)

lemma iteration_threw:
  "fst (iteration c rc s) = Threw msg \<longleftrightarrow> c (history s) = Inl msg"
  by (auto simp: iteration_def Let_def split: sum.splits)

text \<open>
  An iteration throws exactly when the provider call is rejected; a tool invocation never
  makes it throw, whatever its outcome.
\<close>

lemma iteration_cases:
  obtains (threw) msg s' where "iteration c rc s = (Threw msg, s')" "c (history s) = Inl msg"
  | (brk) s' where "iteration c rc s = (Break, s')" "\<not> isl (c (history s))"
  | (cont) s' where "iteration c rc s = (Continue, s')" "\<not> isl (c (history s))"
proof (cases "iteration c rc s")
  case (Pair st s')
  show ?thesis
  proof (cases st)
    case Continue
    with Pair have "\<not> isl (c (history s))"
      by (auto simp: iteration_def Let_def split: sum.splits if_splits)
    with Pair Continue show ?thesis using cont by simp
  next
    case Break
    with Pair have "\<not> isl (c (history s))"
      by (auto simp: iteration_def Let_def split: sum.splits if_splits)
    with Pair Break show ?thesis using brk by simp
  next
    case (Threw msg)
    with Pair have "c (history s) = Inl msg"
      using iteration_threw[of c rc s msg] by simp
    with Pair Threw show ?thesis using threw by simp
  qed
qed

lemma loop_inv:
  "DoneEv \<notin> set (frames s) \<Longrightarrow> resolved_calls c (calls s) \<Longrightarrow>
   (let r = agentic_loop c rc n s; s' = snd r in
     DoneEv \<notin> set (frames s') \<and> closed s' = closed s \<and>
     iterations s' \<le> iterations s + n \<and>
     length (calls s') + iterations s = length (calls s) + iterations s' \<and>
     (case fst r of
        Aborted msg \<Rightarrow>
          calls s' \<noteq> [] \<and> c (last (calls s')) = Inl msg \<and>
          resolved_calls c (butlast (calls s'))
      | CapReached \<Rightarrow> iterations s' = iterations s + n \<and> resolved_calls c (calls s')
      | NoToolUse \<Rightarrow> resolved_calls c (calls s')))"
proof (induction n arbitrary: s)
  case 0
  then show ?case by (simp add: Let_def)
next
  case (Suc n)
  let ?s1 = "s\<lparr>iterations := Suc (iterations s)\<rparr>"
  have h1: "history ?s1 = history s" by (simp add: history_def)
  show ?case
  proof (cases rule: iteration_cases[of c rc ?s1])
    case (threw msg s')
    have g: "calls s' = calls s @ [history s]" "iterations s' = Suc (iterations s)"
        "closed s' = closed s"
      using iteration_ghost[of c rc ?s1] threw(1) h1 by simp_all
    have nd: "DoneEv \<notin> set (frames s')"
      using iteration_no_done[of ?s1 c rc] Suc.prems(1) threw(1) by simp
    show ?thesis using threw g nd Suc.prems(2) h1 by (simp add: Let_def)
  next
    case (brk s')
    have g: "calls s' = calls s @ [history s]" "iterations s' = Suc (iterations s)"
        "closed s' = closed s"
      using iteration_ghost[of c rc ?s1] brk(1) h1 by simp_all
    have nd: "DoneEv \<notin> set (frames s')"
      using iteration_no_done[of ?s1 c rc] Suc.prems(1) brk(1) by simp
    show ?thesis using brk g nd Suc.prems(2) h1 by (simp add: Let_def resolved_calls_def)
  next
    case (cont s')
    have g: "calls s' = calls s @ [history s]" "iterations s' = Suc (iterations s)"
        "closed s' = closed s"
      using iteration_ghost[of c rc ?s1] cont(1) h1 by simp_all
    have nd: "DoneEv \<notin> set (frames s')"
      using iteration_no_done[of ?s1 c rc] Suc.prems(1) cont(1) by simp
    have rc': "resolved_calls c (calls s')"
      using g cont(2) Suc.prems(2) h1 by (simp add: resolved_calls_def)
    have eq: "agentic_loop c rc (Suc n) s = agentic_loop c rc n s'"
      using cont(1) by simp
    show ?thesis
      using Suc.IH[OF nd rc'] g unfolding eq
      by (auto simp: Let_def split: exit.splits)
  qed
qed

lemma run_loop_inv:
  "let r = run_loop c rc ms sb; s' = snd r in
     DoneEv \<notin> set (frames s') \<and> closed s' = False \<and>
     iterations s' \<le> maxIterations \<and> length (calls s') = iterations s' \<and>
     (case fst r of
        Aborted msg \<Rightarrow>
          calls s' \<noteq> [] \<and> c (last (calls s')) = Inl msg \<and>
          resolved_calls c (butlast (calls s'))
      | CapReached \<Rightarrow> iterations s' = maxIterations \<and> resolved_calls c (calls s')
      | NoToolUse \<Rightarrow> resolved_calls c (calls s'))"
proof -
  have i: "DoneEv \<notin> set (frames (initial_state ms sb))"
      "resolved_calls c (calls (initial_state ms sb))"
    by (simp_all add: initial_state_def resolved_calls_def)
  have z: "iterations (initial_state ms sb) = 0" "calls (initial_state ms sb) = []"
      "closed (initial_state ms sb) = False"
    by (simp_all add: initial_state_def)
  show ?thesis
    using loop_inv[OF i, of rc maxIterations]
    by (auto simp: Let_def run_loop_def z split: exit.splits)
qed

section \<open>Termination of the event stream\<close>

text \<open>
  C1: whatever the provider and the backend do, the frames of an opened stream are the
  frames of the loop, none of which is \<open>done\<close>, followed by exactly one terminal frame,
  and the stream is closed. The terminal frame is the \<open>error\<close> frame with the message of
  the rejected provider call when the last provider call was rejected, and no \<open>done\<close>
  frame occurs then; otherwise no provider call was rejected (the loop ended because a
  response had no tool invocation or because the budget was used up) and the terminal
  frame is the only \<open>done\<close> frame.
\<close>

theorem stream_ends_with_done_or_error:
  "let r = run_loop create runCode ms sb; s = start create runCode ms sb in
     closed s \<and> DoneEv \<notin> set (frames (snd r)) \<and>
     (case fst r of
        Aborted msg \<Rightarrow>
          frames s = frames (snd r) @ [ErrorEv msg] \<and> count_list (frames s) DoneEv = 0 \<and>
          calls (snd r) \<noteq> [] \<and> create (last (calls (snd r))) = Inl msg
      | CapReached \<Rightarrow>
          frames s = frames (snd r) @ [DoneEv] \<and> count_list (frames s) DoneEv = 1 \<and>
          resolved_calls create (calls (snd r))
      | NoToolUse \<Rightarrow>
          frames s = frames (snd r) @ [DoneEv] \<and> count_list (frames s) DoneEv = 1 \<and>
          resolved_calls create (calls (snd r)))"
proof -
  have cnt: "\<And>xs. DoneEv \<notin> set xs \<Longrightarrow> count_list xs DoneEv = 0"
    by (simp add: count_list_0_iff)
  show ?thesis
    using run_loop_inv[of create runCode ms sb]
    by (cases "run_loop create runCode ms sb")
       (auto simp: Let_def start_def cnt split: exit.splits)
qed

theorem stream_ends_with_done_or_error_witness:
  "closed (start tool_then_reject silent_run question ()) \<and>
   frames (start tool_then_reject silent_run question ()) = [CodeEv ''x'', ErrorEv ''overloaded''] \<and>
   count_list (frames (start tool_then_reject silent_run question ())) DoneEv = 0"
proof -
  have e: "fst (run_loop tool_then_reject silent_run question ()) = Aborted ''overloaded''"
    by (simp add: run_defs eval_nat_numeral tool_then_reject_def silent_run_def question_def)
  have f: "frames (snd (run_loop tool_then_reject silent_run question ())) = [CodeEv ''x'']"
    by (simp add: run_defs eval_nat_numeral tool_then_reject_def silent_run_def question_def)
  show ?thesis
    using stream_ends_with_done_or_error [of tool_then_reject silent_run question "()"]
    unfolding Let_def e f by simp
qed

text \<open>
  The scenario of the specification: one tool call \<open>print(2+2)\<close>, then a final text.
\<close>

lemma scenario_compute: 
  "frames (start (tool_then_text ''print(2+2)'') print_four_run question ()) =
     [CodeEv ''print(2+2)'', OutputEv ''4'', TextEv ''The answer is 4.'', DoneEv]"
  by (simp add: run_defs eval_nat_numeral tool_then_text_def print_four_run_def question_def)

section \<open>The iteration budget\<close>

text \<open>
  C7: the loop body is entered at most \<open>maxIterations = 10\<close> times and every entry makes
  exactly one provider call. When the budget is used up, ten calls were made, none was
  rejected, and the stream ends with the \<open>done\<close> frame right after the frames of the
  loop, none of which is a \<open>done\<close> frame: nothing tells the exhausted budget from a
  response without tool invocation.
\<close>

theorem iterations_bounded_by_cap:
  "let r = run_loop create runCode ms sb; s = snd r in
     maxIterations = 10 \<and> iterations s \<le> maxIterations \<and> length (calls s) = iterations s \<and>
     (fst r = CapReached \<longrightarrow>
        iterations s = maxIterations \<and> resolved_calls create (calls s) \<and>
        frames (start create runCode ms sb) = frames s @ [DoneEv] \<and>
        DoneEv \<notin> set (frames s) \<and> closed (start create runCode ms sb))"
  using run_loop_inv[of create runCode ms sb]
  by (cases "run_loop create runCode ms sb")
     (auto simp: Let_def start_def maxIterations_def split: exit.splits)

theorem iterations_bounded_by_cap_witness:
  "fst (run_loop always_tool silent_run question ()) = CapReached \<and>
   iterations (snd (run_loop always_tool silent_run question ())) = 10 \<and>
   length (calls (snd (run_loop always_tool silent_run question ()))) = 10 \<and>
   frames (start always_tool silent_run question ()) =
     frames (snd (run_loop always_tool silent_run question ())) @ [DoneEv]"
proof -
  have e: "fst (run_loop always_tool silent_run question ()) = CapReached"
    by (simp add: run_defs eval_nat_numeral always_tool_def silent_run_def question_def)
  show ?thesis
    using iterations_bounded_by_cap [of always_tool silent_run question "()"] e
    by (simp add: Let_def maxIterations_def)
qed

section \<open>Execution errors inside the loop\<close>

text \<open>
  A tool invocation never aborts the loop: whatever the outcome, the iteration goes on
  (\<open>hasToolUse\<close> is set, and an iteration throws only when the provider call is rejected,
  see \<open>iteration_cases\<close>). When the outcome carries a non-empty error text that text is
  streamed as an \<open>error\<close> frame and its error block is part of the tool result appended to
  the messages.
\<close>

lemma tool_invocation_continues:
  "fst (process_block rc a (ToolUseBlock tid code) st)"
  by (simp add: process_block_def Let_def)

lemma nonempty_error_surfaced:
  assumes "res_error (fst (executeCode rc (sandbox (snd st)) code)) = Some e" and "e \<noteq> []"
  shows "let r = fst (executeCode rc (sandbox (snd st)) code);
             st' = process_block rc a (ToolUseBlock tid code) st
         in ErrorEv e \<in> set (frames (snd st')) \<and>
            currentMessages (snd st') =
              currentMessages (snd st) @
              [Message Assistant (Ref a),
               Message User (Arr [ToolResultBlock tid (tool_result_text r)])] \<and>
            tool_result_text r =
              join ''\<newline>\<newline>''
                ((if res_text r \<noteq> [] then [output_block r] else []) @ [error_block e] @
                 (if res_images r \<noteq> [] then [plots_notice (length (res_images r))] else []))"
proof -
  let ?r = "fst (executeCode rc (sandbox (snd st)) code)"
  have ne: "res_error ?r \<noteq> Some []"
    using assms by simp
  have c: "toolResultContent ?r =
             join ''\<newline>\<newline>''
               ((if res_text ?r \<noteq> [] then [output_block ?r] else []) @ [error_block e] @
                (if res_images ?r \<noteq> [] then [plots_notice (length (res_images ?r))] else []))"
    using toolResultContent_blocks[OF ne] assms(1) by simp
  have "toolResultContent ?r \<noteq> []"
    unfolding c by (simp add: output_block_def error_block_def)
  then have t: "tool_result_text ?r = toolResultContent ?r"
    by (simp add: tool_result_text_def truthy_def)
  have f: "ErrorEv e \<in> set (frames (snd (process_block rc a (ToolUseBlock tid code) st)))"
    using assms by (simp add: process_block_def Let_def stream_result_def truthy_def)
  show ?thesis
    using f c t by (simp add: Let_def process_block_def)
qed

text \<open>
  C6: every outcome with a non-null error is surfaced as an \<open>error\<close> frame and its text
  reaches the provider in the tool result. A cell that raises an exception with an empty
  message gives an outcome whose error is \<open>""\<close>, not \<open>null\<close>; the stream then carries no
  \<open>error\<close> frame at all, and the next provider call is made with the tool result
  \<open>Code executed successfully.\<close>
\<close>

theorem empty_error_not_surfaced:
  "res_error (fst (executeCode empty_message_run () ''assert False'')) = Some [] \<and>
   frames (start (tool_then_text ''assert False'') empty_message_run question ()) =
     [CodeEv ''assert False'', TextEv ''The answer is 4.'', DoneEv] \<and>
   calls (start (tool_then_text ''assert False'') empty_message_run question ()) =
     [question,
      question @
      [Message Assistant (Arr [ToolUseBlock ''t1'' ''assert False'']),
       Message User (Arr [ToolResultBlock ''t1'' ''Code executed successfully.''])]]"
  by (simp add: run_defs eval_nat_numeral tool_then_text_def empty_message_run_def question_def)

section \<open>The conversation history\<close>

text \<open>
  C8: the history is append-only and every tool invocation in it is followed by exactly
  one tool result with its identifier, also when one response holds several invocations.
  For a response with the two invocations \<open>a\<close> and \<open>b\<close>: after \<open>a\<close> is processed the
  history ends with the assistant message \<open>[a]\<close> and the result of \<open>a\<close>; processing \<open>b\<close>
  pushes \<open>b\<close> to the array that message shares with the loop, so the message already in
  the history becomes \<open>[a, b]\<close>, and appends a second assistant message on the same
  array. The list of message objects only grew, the history the provider sees did not;
  and the copy of \<open>a\<close> in the second assistant message is followed by no result of \<open>a\<close>.
\<close>

theorem two_invocations_break_history:
  "history (snd (fold (process_block silent_run 0) (take 1 two_tools)
       (False, initial_state question ()))) =
     question @
     [Message Assistant (Arr [ToolUseBlock ''a'' ''x'']),
      Message User (Arr [ToolResultBlock ''a'' ''Code executed successfully.''])] \<and>
   history (snd (fold (process_block silent_run 0) two_tools
       (False, initial_state question ()))) =
     question @
     [Message Assistant (Arr two_tools),
      Message User (Arr [ToolResultBlock ''a'' ''Code executed successfully.'']),
      Message Assistant (Arr two_tools),
      Message User (Arr [ToolResultBlock ''b'' ''Code executed successfully.''])] \<and>
   prefix
     (currentMessages (snd (fold (process_block silent_run 0) (take 1 two_tools)
         (False, initial_state question ()))))
     (currentMessages (snd (fold (process_block silent_run 0) two_tools
         (False, initial_state question ())))) \<and>
   \<not> prefix
     (history (snd (fold (process_block silent_run 0) (take 1 two_tools)
         (False, initial_state question ()))))
     (history (snd (fold (process_block silent_run 0) two_tools
         (False, initial_state question ())))) \<and>
   history (snd (iteration (\<lambda>h. Inr two_tools) silent_run (initial_state question ()))) =
     history (snd (fold (process_block silent_run 0) two_tools
       (False, initial_state question ()))) \<and>
   \<not> paired (history (snd (iteration (\<lambda>h. Inr two_tools) silent_run
        (initial_state question ()))))"
  by (simp add: run_defs two_tools_def silent_run_def question_def result_count_def
      blocks_of_def tool_use_ids_def tool_result_ids_def)

text \<open>With a single invocation per response the pairing holds.\<close>

lemma one_invocation_paired:
  "paired (history (snd (iteration (tool_then_text ''x'') silent_run (initial_state question ()))))"
  by (simp add: run_defs tool_then_text_def silent_run_def question_def result_count_def
      blocks_of_def tool_use_ids_def tool_result_ids_def)

section \<open>Failures before the stream is opened\<close>

text \<open>
  C10: when parsing the request body, acquiring the sandbox, or injecting a file throws,
  \<open>POST\<close> answers with status 500 and the error message, no stream is opened, and so no
  frame, in particular no \<open>done\<close> and no \<open>error\<close> frame, is delivered.
\<close>

theorem early_failure_is_http_500:
  assumes "parsed = Inl msg \<or>
           (\<exists>b. parsed = Inr b \<and> acquire (sessionId b) (mode b) = Inl msg) \<or>
           (\<exists>b sb. parsed = Inr b \<and> acquire (sessionId b) (mode b) = Inr sb \<and>
                   inject_files write sb (files b) = Inl msg)"
  shows "POST parsed acquire write prompt create runCode = Http500 msg \<and>
         delivered (POST parsed acquire write prompt create runCode) = []"
  using assms by (auto simp: POST_def delivered_def)

theorem early_failure_is_http_500_witness:
  "POST (Inr sample_body) (\<lambda>sid m. Inl ''sandbox unavailable'') (\<lambda>sb path bytes. Inr sb)
      (\<lambda>m. ''system'') (\<lambda>sys. always_tool) silent_run = Http500 ''sandbox unavailable'' \<and>
   delivered (POST (Inr sample_body) (\<lambda>sid m. Inl ''sandbox unavailable'')
      (\<lambda>sb path bytes. Inr sb) (\<lambda>m. ''system'') (\<lambda>sys. always_tool) silent_run) = []"
proof -
  have h: "Inr sample_body = Inl ''sandbox unavailable'' \<or>
           (\<exists>b. Inr sample_body = Inr b \<and>
                (\<lambda>sid m. Inl ''sandbox unavailable'') (sessionId b) (mode b) =
                  (Inl ''sandbox unavailable'' :: string + unit)) \<or>
           (\<exists>b sb. Inr sample_body = Inr b \<and>
                (\<lambda>sid m. Inl ''sandbox unavailable'') (sessionId b) (mode b) = Inr sb \<and>
                inject_files (\<lambda>sb path bytes. Inr sb) sb (files b) = Inl ''sandbox unavailable'')"
    by simp
  show ?thesis
    using h by (rule early_failure_is_http_500)
qed

text \<open>Once these three steps have succeeded the response is the stream of \<open>start\<close>.\<close>

lemma POST_streams:
  assumes "parsed = Inr b" and "acquire (sessionId b) (mode b) = Inr sb"
    and "inject_files write sb (files b) = Inr sb'"
  shows "POST parsed acquire write prompt create runCode =
           EventStream (start (create (prompt (mode b))) runCode (messages b) sb')"
  using assms by (simp add: POST_def)

lemma first_write_rejected:
  "write sb (''/home/user/'' @ file_name f) (file_content f) = Inl msg \<Longrightarrow>
   inject_files write sb (Some (f # fs)) = Inl msg"
  by (simp add: inject_files_def uploadFileToSandbox_def)

section \<open>Acquiring a sandbox\<close>

lemma resume_returned: "call_pc c = Returned sb \<Longrightarrow> resume e st (c, p) = (c, p)"
  by (simp add: resume_def)

lemma fold_resume_returned:
  "call_pc c = Returned sb \<Longrightarrow> fold (resume e) sts (c, p) = (c, p)"
  by (induction sts) (simp_all add: resume_returned)

lemma resume_entry_hit:
  "activeSandboxes p (sandbox_key sid m) = Some sb \<Longrightarrow>
   resume e st (new_call sid m, p) = ((new_call sid m)\<lparr>call_pc := Returned sb\<rparr>, p)"
  by (simp add: resume_def new_call_def)

lemma resume_entry_miss:
  "activeSandboxes p (sandbox_key sid m) = None \<Longrightarrow>
   resume e st (new_call sid m, p) = ((new_call sid m)\<lparr>call_pc := AwaitCreate\<rparr>, p)"
  by (simp add: resume_def new_call_def)

text \<open>A rejected \<open>Sandbox.create\<close> rejects the call and leaves the pool as it was.\<close>

lemma create_rejected:
  "activeSandboxes p (sandbox_key sid m) = None \<Longrightarrow>
   fold (resume e) [None, Some msg] (new_call sid m, p) =
     ((new_call sid m)\<lparr>call_pc := Rejected msg\<rparr>, p)"
  by (simp add: resume_def new_call_def)

lemma getOrCreateSandbox_hit:
  assumes "activeSandboxes p (sandbox_key sid m) = Some sb"
  shows "getOrCreateSandbox e sid m p = ((new_call sid m)\<lparr>call_pc := Returned sb\<rparr>, p)"
proof -
  have "getOrCreateSandbox e sid m p =
          fold (resume e) [None, None, None, None] (resume e None (new_call sid m, p))"
    by (simp add: getOrCreateSandbox_def)
  also have "\<dots> = fold (resume e) [None, None, None, None]
                    ((new_call sid m)\<lparr>call_pc := Returned sb\<rparr>, p)"
    using resume_entry_hit[OF assms] by simp
  also have "\<dots> = ((new_call sid m)\<lparr>call_pc := Returned sb\<rparr>, p)"
    by (rule fold_resume_returned[where sb = sb]) simp
  finally show ?thesis .
qed

lemma resume_create:
  "fold (resume e) [None, None, None, None] ((new_call sid m)\<lparr>call_pc := AwaitCreate\<rparr>, p) =
   registered sid m p"
proof (cases m)
  case Vanilla
  then show ?thesis
    by (simp add: resume_def new_call_def register_def registered_def secret_step_def
        install_step_def Let_def)
next
  case Spinel
  show ?thesis
  proof (cases "truthy_opt (SPINEL_TEMPLATE e)")
    case True
    note t = True
    show ?thesis
    proof (cases "truthy_opt (MP_API_KEY e)")
      case True
      with t Spinel show ?thesis
        by (simp add: resume_def new_call_def register_def registered_def secret_step_def
            install_step_def Let_def)
    next
      case False
      with t Spinel show ?thesis
        by (simp add: resume_def new_call_def register_def registered_def secret_step_def
            install_step_def Let_def)
    qed
  next
    case False
    note t = False
    show ?thesis
    proof (cases "truthy_opt (MP_API_KEY e)")
      case True
      with t Spinel show ?thesis
        by (simp add: resume_def new_call_def register_def registered_def secret_step_def
            install_step_def Let_def)
    next
      case False
      with t Spinel show ?thesis
        by (simp add: resume_def new_call_def register_def registered_def secret_step_def
            install_step_def Let_def)
    qed
  qed
qed

lemma getOrCreateSandbox_miss:
  assumes "activeSandboxes p (sandbox_key sid m) = None"
  shows "getOrCreateSandbox e sid m p = registered sid m p"
proof -
  have "getOrCreateSandbox e sid m p =
          fold (resume e) [None, None, None, None] (resume e None (new_call sid m, p))"
    by (simp add: getOrCreateSandbox_def)
  then show ?thesis
    using resume_entry_miss[OF assms] resume_create by simp
qed

text \<open>A call that runs alone is the schedule that resumes only that call.\<close>

lemma run_schedule_alone:
  "run_schedule e (map (Pair 0) sts) ([c], p) =
     ([fst (fold (resume e) sts (c, p))], snd (fold (resume e) sts (c, p)))"
  by (induction sts arbitrary: c p) (simp_all add: Let_def)

text \<open>
  C4, as stated: two calls with the same arguments, also when they overlap, return the
  same sandbox, created once. Two calls for the same key that both pass the lookup before
  either has registered its sandbox create two sandboxes and return different ones.
\<close>

theorem concurrent_acquire_creates_two:
  "map call_pc (fst (run_schedule no_env [(0, None), (1, None), (0, None), (1, None)]
      ([new_call ''s1'' Vanilla, new_call ''s1'' Vanilla], empty_pool))) =
     [Returned 0, Returned 1] \<and>
   created (snd (run_schedule no_env [(0, None), (1, None), (0, None), (1, None)]
      ([new_call ''s1'' Vanilla, new_call ''s1'' Vanilla], empty_pool))) = 2 \<and>
   activeSandboxes (snd (run_schedule no_env [(0, None), (1, None), (0, None), (1, None)]
      ([new_call ''s1'' Vanilla, new_call ''s1'' Vanilla], empty_pool)))
      (sandbox_key ''s1'' Vanilla) = Some 1"
  by (simp add: pool_defs no_env_def empty_pool_def Let_def)

text \<open>
  C4, amended: two calls with the same arguments of which the second starts after the
  first has returned both return the same sandbox, which is the one registered under the
  key; the second call creates nothing, and the first creates one sandbox if the key was
  not registered before and none otherwise.
\<close>

theorem sequential_acquire_same_sandbox:
  "let r1 = getOrCreateSandbox e sid m p; r2 = getOrCreateSandbox e sid m (snd r1) in
     \<exists>sb. call_pc (fst r1) = Returned sb \<and> call_pc (fst r2) = Returned sb \<and>
          activeSandboxes (snd r2) (sandbox_key sid m) = Some sb \<and>
          created (snd r2) = created (snd r1) \<and>
          created (snd r1) =
            created p + (if activeSandboxes p (sandbox_key sid m) = None then 1 else 0)"
proof (cases "activeSandboxes p (sandbox_key sid m)")
  case None
  have r1: "getOrCreateSandbox e sid m p = registered sid m p"
    by (rule getOrCreateSandbox_miss[OF None])
  have k: "activeSandboxes (snd (registered sid m p)) (sandbox_key sid m) = Some (created p)"
    by (simp add: registered_def)
  have r2: "getOrCreateSandbox e sid m (snd (registered sid m p)) =
              ((new_call sid m)\<lparr>call_pc := Returned (created p)\<rparr>, snd (registered sid m p))"
    by (rule getOrCreateSandbox_hit[OF k])
  show ?thesis
    using None by (simp add: Let_def r1 r2 k) (simp add: registered_def)
next
  case (Some sb)
  have r1: "getOrCreateSandbox e sid m p = ((new_call sid m)\<lparr>call_pc := Returned sb\<rparr>, p)"
    by (rule getOrCreateSandbox_hit[OF Some])
  show ?thesis
    using Some by (simp add: Let_def r1)
qed

theorem sequential_acquire_same_sandbox_witness:
  "call_pc (fst (getOrCreateSandbox no_env ''s1'' Spinel empty_pool)) = Returned 0 \<and>
   call_pc (fst (getOrCreateSandbox no_env ''s1'' Spinel
      (snd (getOrCreateSandbox no_env ''s1'' Spinel empty_pool)))) = Returned 0 \<and>
   created (snd (getOrCreateSandbox no_env ''s1'' Spinel
      (snd (getOrCreateSandbox no_env ''s1'' Spinel empty_pool)))) = 1"
proof -
  have k: "activeSandboxes empty_pool (sandbox_key ''s1'' Spinel) = None" "created empty_pool = 0"
    by (simp_all add: empty_pool_def)
  have a: "call_pc (fst (getOrCreateSandbox no_env ''s1'' Spinel empty_pool)) = Returned 0"
    by (simp add: getOrCreateSandbox_def pool_defs no_env_def empty_pool_def Let_def)
  show ?thesis
    using sequential_acquire_same_sandbox [of no_env "''s1''" Spinel empty_pool] a
    unfolding Let_def k by auto
qed


end
